theory Spec2Isabelle
  imports Main "HOL-Library.Word"
begin

section \<open>Characters and raw keys\<close>

text \<open>
  A Python character is modelled by a \<^typ>\<open>char\<close> holding its code point, so the model
  covers the code points below 256; a Python string is a \<^typ>\<open>string\<close> with one element per
  character. The control characters the source names:
  \<^verbatim>\<open>'\r' '\n' '\t' '\x08' '\x7f' '\x03'\<close>.
\<close>

definition CR :: char where "CR = CHR 0x0D"
definition LF :: char where "LF = CHR 0x0A"
definition TAB :: char where "TAB = CHR 0x09"
definition BS :: char where "BS = CHR 0x08"
definition DEL :: char where "DEL = CHR 0x7F"
definition ETX :: char where "ETX = CHR 0x03"
definition SPACE :: char where "SPACE = CHR 0x20"

text \<open>
  \<^verbatim>\<open>str.isprintable\<close> on one character: every character is printable except those of the
  Unicode categories Other and Separator, the ASCII space excepted. Below 256 the
  non-printable ones are the controls 0x00-0x1F and 0x7F-0x9F, the no-break space 0xA0 and
  the soft hyphen 0xAD.
\<close>

definition isprintable :: "char \<Rightarrow> bool" where
  "isprintable c =
     (let n = (of_char c :: nat)
      in (32 \<le> n \<and> n \<le> 126) \<or> (161 \<le> n \<and> n \<le> 255 \<and> n \<noteq> 173))"

text \<open>
  \<^verbatim>\<open>str.isspace\<close> on one character, as \<^verbatim>\<open>str.strip()\<close> uses it: below 256 the
  whitespace characters are 0x09-0x0D, 0x1C-0x1F, the space, 0x85 and 0xA0.
\<close>

definition isspace :: "char \<Rightarrow> bool" where
  "isspace c =
     (let n = (of_char c :: nat)
      in (9 \<le> n \<and> n \<le> 13) \<or> (28 \<le> n \<and> n \<le> 32) \<or> n = 133 \<or> n = 160)"

definition strip :: "string \<Rightarrow> string" where
  "strip s = rev (dropWhile isspace (rev (dropWhile isspace s)))"

text \<open>
  What one call of \<^verbatim>\<open>Getch.__call__\<close> hands to the capture loop: \<^verbatim>\<open>None\<close> (the Windows
  reader after a function-key lead byte), the empty string (an undecodable byte, or end of
  input on \<^verbatim>\<open>sys.stdin.read(1)\<close>), or a string of exactly one character.
\<close>

datatype key = KNone | KEmpty | KChar char

text \<open>Python truthiness of the value: \<^verbatim>\<open>None\<close> and \<^verbatim>\<open>''\<close> are falsy.\<close>

fun truthy :: "key \<Rightarrow> bool" where
  "truthy KNone = False"
| "truthy KEmpty = False"
| "truthy (KChar c) = True"

section \<open>The capture loop \<^verbatim>\<open>smart_input\<close>\<close>

datatype error = IndexError | OSError | TermiosError

text \<open>Indexing a string at a non-negative index; out of range raises.\<close>

definition getitem :: "string \<Rightarrow> nat \<Rightarrow> error + char" where
  "getitem s i = (if i < length s then Inr (s ! i) else Inl IndexError)"

text \<open>
  The state of one capture: the list \<^verbatim>\<open>input_buffer\<close> (each element a one-character
  string) and everything written to \<^verbatim>\<open>sys.stdout\<close> so far.
\<close>

record capture =
  input_buffer :: string
  stdout :: string

text \<open>What one pass through the body of \<^verbatim>\<open>while True\<close> does with the key read.\<close>

datatype step_result =
    Continue capture
  | Returned string capture
  | Exited int capture
  | Raised error

definition handle_key :: "string \<Rightarrow> capture \<Rightarrow> key \<Rightarrow> step_result" where
  "handle_key target_word st k =
     (if k = KChar CR \<or> k = KChar LF then
        Returned (input_buffer st) (st\<lparr>stdout := stdout st @ [LF]\<rparr>)
      else if k = KChar TAB then
        (let current_len = length (input_buffer st);
             target_len = length target_word
         in if current_len < target_len then
              (case getitem target_word current_len of
                 Inl e \<Rightarrow> Raised e
               | Inr next_char \<Rightarrow>
                   Continue \<lparr>input_buffer = input_buffer st @ [next_char],
                             stdout = stdout st @ [next_char]\<rparr>)
            else Continue st)
      else if k = KChar BS \<or> k = KChar DEL then
        (if length (input_buffer st) > 0 then
           Continue \<lparr>input_buffer = butlast (input_buffer st),
                     stdout = stdout st @ [BS, SPACE, BS]\<rparr>
         else Continue st)
      else if truthy k \<and> (case k of KChar c \<Rightarrow> isprintable c | _ \<Rightarrow> True) then
        (case k of
           KChar c \<Rightarrow>
             Continue \<lparr>input_buffer = input_buffer st @ [c], stdout = stdout st @ [c]\<rparr>
         | _ \<Rightarrow> Continue st)
      else if k = KChar ETX then Exited 0 st
      else Continue st)"

text \<open>
  The result of \<^verbatim>\<open>smart_input\<close> on the keys that successive \<^verbatim>\<open>getch()\<close> calls deliver:
  it returns the joined buffer (with the keys not yet read and the output written), or
  \<^verbatim>\<open>sys.exit\<close> ends the process, or an exception is raised, or the keys run out and the
  loop is still blocked in \<^verbatim>\<open>getch()\<close>.
\<close>

datatype outcome =
    Return string "key list" string
  | SysExit int string
  | Raise error
  | Blocked capture

fun input_loop :: "string \<Rightarrow> capture \<Rightarrow> key list \<Rightarrow> outcome" where
  "input_loop target_word st [] = Blocked st"
| "input_loop target_word st (k # ks) =
     (case handle_key target_word st k of
        Continue st' \<Rightarrow> input_loop target_word st' ks
      | Returned s st' \<Rightarrow> Return s ks (stdout st')
      | Exited n st' \<Rightarrow> SysExit n (stdout st')
      | Raised e \<Rightarrow> Raise e)"

definition smart_input :: "string \<Rightarrow> key list \<Rightarrow> outcome" where
  "smart_input target_word keys =
     (case getitem target_word 0 of
        Inl e \<Rightarrow> Raise e
      | Inr c \<Rightarrow> input_loop target_word \<lparr>input_buffer = [c], stdout = [c]\<rparr> keys)"

section \<open>The key events of the specification\<close>

text \<open>
  The specification names the branches of the loop body as key events. The classification
  follows its rules for the raw unit read: carriage return or line feed is Submit, the tab
  is AssistNext, both backspace codes are Backspace, code 0x03 is Interrupt, any other
  printable character is Printable, anything else is Ignored.
\<close>

datatype key_event = Printable char | Backspace | AssistNext | Submit | Interrupt | Ignored

fun classify :: "key \<Rightarrow> key_event" where
  "classify KNone = Ignored"
| "classify KEmpty = Ignored"
| "classify (KChar c) =
     (if c = CR \<or> c = LF then Submit
      else if c = TAB then AssistNext
      else if c = BS \<or> c = DEL then Backspace
      else if c = ETX then Interrupt
      else if isprintable c then Printable c
      else Ignored)"

section \<open>The drill loop of \<^verbatim>\<open>main\<close>\<close>

text \<open>The lines \<^verbatim>\<open>main\<close> prints after a submitted word.\<close>

datatype message = Correct | Wrong string

text \<open>
  The comparison at the end of one pass of the loop: the submitted text is stripped of
  surrounding whitespace, compared with the target, and the index moves on at a match.
\<close>

definition check_answer :: "string \<Rightarrow> string \<Rightarrow> nat \<Rightarrow> message \<times> nat" where
  "check_answer target user_input index =
     (if strip user_input = target then (Correct, index + 1)
      else (Wrong user_input, index))"

text \<open>
  How a run of the loop ends: every word was entered and \<^verbatim>\<open>main\<close> returns, or
  \<^verbatim>\<open>sys.exit\<close> was called, or an exception left \<^verbatim>\<open>main\<close>, or the keys ran out while
  the word at the given index was being captured.
\<close>

datatype session_end =
    Completed
  | ProcessExit int
  | Uncaught error
  | Waiting nat

datatype iteration = Next nat "key list" message | Stop session_end

text \<open>One pass through the body of \<^verbatim>\<open>while index < len(words)\<close>.\<close>

definition drill_step :: "string list \<Rightarrow> nat \<Rightarrow> key list \<Rightarrow> iteration" where
  "drill_step words index keys =
     (let target = words ! index
      in case smart_input target keys of
           Return user_input rest out \<Rightarrow>
             (case check_answer target user_input index of
                (m, index') \<Rightarrow> Next index' rest m)
         | SysExit n out \<Rightarrow> Stop (ProcessExit n)
         | Raise e \<Rightarrow> Stop (Uncaught e)
         | Blocked st \<Rightarrow> Stop (Waiting index))"

function drill_loop :: "string list \<Rightarrow> nat \<Rightarrow> key list \<Rightarrow> session_end" where
  "drill_loop words index keys =
     (if index < length words then
        (case drill_step words index keys of
           Next index' rest m \<Rightarrow> drill_loop words index' rest
         | Stop e \<Rightarrow> e)
      else Completed)"
  by pat_completeness auto
termination
proof (relation "measure (\<lambda>(words, index, keys). length keys)")
  show "wf (measure (\<lambda>(words, index, keys). length keys))"
    by simp
next
  fix words :: "string list" and index :: nat and keys :: "key list"
    and index' :: nat and rest :: "key list" and m :: message
  assume step: "drill_step words index keys = Next index' rest m"
  have shrink: "input_loop t st ks = Return u r out \<Longrightarrow> length r < length ks"
    for t st ks u r out
  proof (induction ks arbitrary: st)
    case Nil
    then show ?case by simp
  next
    case (Cons k ks)
    show ?case
    proof (cases "handle_key t st k")
      case (Continue st')
      with Cons.prems have "input_loop t st' ks = Return u r out" by simp
      then have "length r < length ks" by (rule Cons.IH)
      then show ?thesis by simp
    qed (use Cons.prems in auto)
  qed
  from step have "length rest < length keys"
    by (auto simp: drill_step_def smart_input_def Let_def
        split: outcome.splits sum.splits prod.splits dest: shrink)
  then show "((words, index', rest), (words, index, keys))
      \<in> measure (\<lambda>(words, index, keys). length keys)"
    by simp
qed

declare drill_loop.simps [simp del]

text \<open>
  The exit status of the process: 0 when the script runs to its end, the argument of
  \<^verbatim>\<open>sys.exit\<close>, 1 after an uncaught exception; none while the process is still waiting
  for a key.
\<close>

fun exit_status :: "session_end \<Rightarrow> int option" where
  "exit_status Completed = Some 0"
| "exit_status (ProcessExit n) = Some n"
| "exit_status (Uncaught e) = Some 1"
| "exit_status (Waiting i) = None"

section \<open>The key readers\<close>

text \<open>
  \<^verbatim>\<open>ch.decode('utf-8', 'ignore')\<close> on the single byte \<^verbatim>\<open>msvcrt.getch()\<close> returned: an
  ASCII byte is its character, any other byte alone is not valid UTF-8 and is dropped.
\<close>

definition decode_byte :: "8 word \<Rightarrow> key" where
  "decode_byte ch = (if ch < 0x80 then KChar (char_of (unat ch)) else KEmpty)"

text \<open>
  \<^verbatim>\<open>_GetchWindows.__call__\<close> on the bytes the console will deliver: the key and the
  bytes left, or \<open>None\<close> while \<^verbatim>\<open>msvcrt.getch()\<close> is still waiting for a byte.
\<close>

fun getch_windows :: "8 word list \<Rightarrow> (key \<times> 8 word list) option" where
  "getch_windows [] = None"
| "getch_windows (ch # rest) =
     (if ch = 0x00 \<or> ch = 0xE0 then
        (case rest of
           [] \<Rightarrow> None
         | b # rest' \<Rightarrow> Some (KNone, rest'))
      else Some (decode_byte ch, rest))"

text \<open>
  The terminal as \<^verbatim>\<open>_GetchUnix.__call__\<close> sees it: its attributes (the line-discipline
  flags that \<^verbatim>\<open>tty.setraw\<close> clears, and the remaining settings) and the calls made on it
  so far.
\<close>

record termios =
  echo :: bool
  icanon :: bool
  isig :: bool
  other_flags :: nat

datatype termop = TcGetAttr | SetRaw | Read1 | TcSetAttr termios

record terminal =
  attrs :: termios
  ops :: "termop list"

definition setraw :: "termios \<Rightarrow> termios" where
  "setraw a = a\<lparr>echo := False, icanon := False, isig := False\<rparr>"

text \<open>
  What can happen while \<^verbatim>\<open>sys.stdin.read(1)\<close> is running: it returns one character, or
  the empty string at the end of input, or it raises, or a signal whose action ends the
  process (SIGTERM, SIGHUP, SIGKILL) arrives, and then no \<^verbatim>\<open>finally\<close> clause runs. When
  none of these happens (\<open>None\<close> below) no input arrives and the call stays in its read.
\<close>

datatype read_event = ReadChar char | ReadEOF | ReadRaises error | ReadKilled

text \<open>
  How one call of \<^verbatim>\<open>_GetchUnix.__call__\<close> stands: it returned a key, it raised, it is
  still inside its read, or the process was ended inside its read.
\<close>

datatype getch_outcome = Got key | Threw error | InRead | KilledInRead

text \<open>
  \<^verbatim>\<open>_GetchUnix.__call__\<close>. The first argument says whether standard input is a terminal
  (\<^verbatim>\<open>termios.tcgetattr\<close> raises otherwise, before the \<^verbatim>\<open>try\<close>). The \<^verbatim>\<open>finally\<close> clause
  runs when the read returns or raises, and only then.
\<close>

definition getch_unix :: "bool \<Rightarrow> read_event option \<Rightarrow> terminal \<Rightarrow> getch_outcome \<times> terminal" where
  "getch_unix tty ev t =
     (let t1 = t\<lparr>ops := ops t @ [TcGetAttr]\<rparr>
      in if \<not> tty then (Threw TermiosError, t1)
         else
           (let old_settings = attrs t1;
                t2 = t1\<lparr>attrs := setraw (attrs t1), ops := ops t1 @ [SetRaw]\<rparr>;
                t3 = t2\<lparr>ops := ops t2 @ [Read1]\<rparr>;
                t4 = t3\<lparr>attrs := old_settings, ops := ops t3 @ [TcSetAttr old_settings]\<rparr>
            in case ev of
                 None \<Rightarrow> (InRead, t3)
               | Some ReadKilled \<Rightarrow> (KilledInRead, t3)
               | Some (ReadRaises e) \<Rightarrow> (Threw e, t4)
               | Some ReadEOF \<Rightarrow> (Got KEmpty, t4)
               | Some (ReadChar ch) \<Rightarrow> (Got (KChar ch), t4)))"

text \<open>
  How the capture loop stands when it reads its keys with \<^verbatim>\<open>_GetchUnix\<close>: it returned
  the joined buffer, \<^verbatim>\<open>sys.exit\<close> ended the process, an exception left the loop, the loop
  is inside the read of a \<^verbatim>\<open>getch()\<close> call, or the process was ended inside that read.
  The string next to a returned value or an exit status is the output written.
\<close>

datatype unix_outcome =
    UnixReturn string string
  | UnixSysExit int string
  | UnixRaise error
  | UnixInRead capture
  | UnixKilled capture

fun in_read :: "unix_outcome \<Rightarrow> bool" where
  "in_read (UnixInRead st) = True"
| "in_read (UnixKilled st) = True"
| "in_read (UnixReturn s out) = False"
| "in_read (UnixSysExit n out) = False"
| "in_read (UnixRaise e) = False"

text \<open>
  The loop of \<^verbatim>\<open>smart_input\<close> over \<^verbatim>\<open>_GetchUnix\<close>, with one event for each read that
  ends. When the events are used up the next \<^verbatim>\<open>getch()\<close> call finds no input: it raises
  if standard input is not a terminal, and stays inside its read otherwise.
\<close>

fun unix_loop ::
  "bool \<Rightarrow> string \<Rightarrow> capture \<Rightarrow> read_event list \<Rightarrow> terminal \<Rightarrow> unix_outcome \<times> terminal" where
  "unix_loop tty target_word st [] t =
     (case getch_unix tty None t of
        (Threw e, t') \<Rightarrow> (UnixRaise e, t')
      | (g, t') \<Rightarrow> (UnixInRead st, t'))"
| "unix_loop tty target_word st (ev # evs) t =
     (case getch_unix tty (Some ev) t of
        (Threw e, t') \<Rightarrow> (UnixRaise e, t')
      | (InRead, t') \<Rightarrow> (UnixInRead st, t')
      | (KilledInRead, t') \<Rightarrow> (UnixKilled st, t')
      | (Got char, t') \<Rightarrow>
          (case handle_key target_word st char of
             Continue st' \<Rightarrow> unix_loop tty target_word st' evs t'
           | Returned s st' \<Rightarrow> (UnixReturn s (stdout st'), t')
           | Exited n st' \<Rightarrow> (UnixSysExit n (stdout st'), t')
           | Raised e \<Rightarrow> (UnixRaise e, t')))"

text \<open>The usual attributes of a terminal in line mode, for the examples.\<close>

definition cooked :: termios where
  "cooked = \<lparr>echo = True, icanon = True, isig = True, other_flags = 0\<rparr>"

section \<open>Auxiliary facts\<close>

lemma control_not_printable:
  "\<not> isprintable CR" "\<not> isprintable LF" "\<not> isprintable TAB"
  "\<not> isprintable BS" "\<not> isprintable DEL" "\<not> isprintable ETX"
  by (simp_all add: isprintable_def CR_def LF_def TAB_def BS_def DEL_def ETX_def)

lemma control_distinct:
  "distinct [CR, LF, TAB, BS, DEL, ETX, SPACE]"
  by (simp add: CR_def LF_def TAB_def BS_def DEL_def ETX_def SPACE_def)

lemma handle_key_submit:
  "classify k = Submit \<Longrightarrow>
   handle_key t st k = Returned (input_buffer st) (st\<lparr>stdout := stdout st @ [LF]\<rparr>)"
  by (cases k) (auto simp: handle_key_def split: if_splits)

lemma handle_key_assist:
  "classify k = AssistNext \<Longrightarrow>
   handle_key t st k =
     (if length (input_buffer st) < length t then
        Continue \<lparr>input_buffer = input_buffer st @ [t ! length (input_buffer st)],
                  stdout = stdout st @ [t ! length (input_buffer st)]\<rparr>
      else Continue st)"
  using control_distinct
  by (cases k) (auto simp: handle_key_def getitem_def Let_def split: if_splits)

lemma handle_key_backspace:
  "classify k = Backspace \<Longrightarrow>
   handle_key t st k =
     (if input_buffer st \<noteq> [] then
        Continue \<lparr>input_buffer = butlast (input_buffer st),
                  stdout = stdout st @ [BS, SPACE, BS]\<rparr>
      else Continue st)"
  using control_distinct
  by (cases k) (auto simp: handle_key_def split: if_splits)

lemma handle_key_printable:
  "classify k = Printable c \<Longrightarrow>
   handle_key t st k =
     Continue \<lparr>input_buffer = input_buffer st @ [c], stdout = stdout st @ [c]\<rparr>"
  using control_distinct
  by (cases k) (auto simp: handle_key_def split: if_splits)

lemma handle_key_interrupt:
  "classify k = Interrupt \<Longrightarrow> handle_key t st k = Exited 0 st"
  using control_distinct control_not_printable
  by (cases k) (auto simp: handle_key_def split: if_splits)

lemma handle_key_ignored:
  "classify k = Ignored \<Longrightarrow> handle_key t st k = Continue st"
  by (cases k) (auto simp: handle_key_def split: if_splits)

lemma classify_printable: "isprintable c \<Longrightarrow> classify (KChar c) = Printable c"
  using control_not_printable by auto


lemma capture_eta [simp]:
  "\<lparr>input_buffer = input_buffer st, stdout = stdout st\<rparr> = (st :: capture)"
  by (cases st) simp

lemma input_loop_ignored:
  "classify k = Ignored \<Longrightarrow> input_loop t st (k # ks) = input_loop t st ks"
  by (simp add: handle_key_ignored)

lemma input_loop_printables:
  "\<forall>c\<in>set cs. isprintable c \<Longrightarrow>
   input_loop t st (map KChar cs @ ks) =
     input_loop t \<lparr>input_buffer = input_buffer st @ cs, stdout = stdout st @ cs\<rparr> ks"
proof (induction cs arbitrary: st)
  case Nil
  then show ?case by simp
next
  case (Cons c cs)
  have "classify (KChar c) = Printable c"
    by (rule classify_printable) (use Cons.prems in simp)
  then have "handle_key t st (KChar c) =
      Continue \<lparr>input_buffer = input_buffer st @ [c], stdout = stdout st @ [c]\<rparr>"
    by (rule handle_key_printable)
  moreover from Cons.prems have "\<forall>c\<in>set cs. isprintable c" by simp
  ultimately show ?case
    by (simp add: Cons.IH)
qed

lemma input_loop_assists:
  "input_loop t st (replicate n (KChar TAB) @ ks) =
     input_loop t
       \<lparr>input_buffer = input_buffer st @ take n (drop (length (input_buffer st)) t),
        stdout = stdout st @ take n (drop (length (input_buffer st)) t)\<rparr> ks"
proof (induction n arbitrary: st)
  case 0
  then show ?case by simp
next
  case (Suc n)
  have tab: "classify (KChar TAB) = AssistNext"
    by (simp add: TAB_def CR_def LF_def)
  show ?case
  proof (cases "length (input_buffer st) < length t")
    case True
    then have "drop (length (input_buffer st)) t =
        t ! length (input_buffer st) # drop (Suc (length (input_buffer st))) t"
      by (simp add: Cons_nth_drop_Suc)
    with True show ?thesis
      by (simp add: handle_key_assist [OF tab] Suc.IH)
  next
    case False
    with Suc.IH [of st] show ?thesis
      by (simp add: handle_key_assist [OF tab])
  qed
qed

lemma input_loop_never_raises: "input_loop t st ks \<noteq> Raise e"
proof (induction ks arbitrary: st)
  case Nil
  then show ?case by simp
next
  case (Cons k ks)
  have "handle_key t st k \<noteq> Raised x" for x
    by (auto simp: handle_key_def getitem_def Let_def split: key.splits)
  with Cons.IH show ?case
    by (simp split: step_result.splits)
qed

lemma input_loop_append:
  "input_loop t st ks = Blocked st' \<Longrightarrow> input_loop t st (ks @ post) = input_loop t st' post"
  "input_loop t st ks = Return u r out \<Longrightarrow> input_loop t st (ks @ post) = Return u (r @ post) out"
  "input_loop t st ks = SysExit n out \<Longrightarrow> input_loop t st (ks @ post) = SysExit n out"
  by (induction ks arbitrary: st) (auto split: step_result.splits)

lemma smart_input_append_return:
  "smart_input t ks = Return u r out \<Longrightarrow> smart_input t (ks @ post) = Return u (r @ post) out"
  by (auto simp: smart_input_def input_loop_append split: sum.splits)

lemma smart_input_blocked_interrupt:
  "smart_input t ks = Blocked st \<Longrightarrow> classify k = Interrupt \<Longrightarrow>
   smart_input t (ks @ k # post) = SysExit 0 (stdout st)"
  by (auto simp: smart_input_def input_loop_append handle_key_interrupt split: sum.splits)

lemma drill_loop_interrupt:
  "drill_loop words index pre = Waiting i \<Longrightarrow> classify k = Interrupt \<Longrightarrow>
   drill_loop words index (pre @ k # post) = ProcessExit 0"
proof (induction words index pre rule: drill_loop.induct)
  case (1 words index keys)
  from "1.prems"(1) have lt: "index < length words"
    by (subst (asm) drill_loop.simps) (simp split: if_splits)
  show ?case
  proof (cases "smart_input (words ! index) keys")
    case (Return u r out)
    obtain m index' where ca: "check_answer (words ! index) u index = (m, index')"
      by (cases "check_answer (words ! index) u index")
    from Return ca have step: "drill_step words index keys = Next index' r m"
      by (simp add: drill_step_def)
    from smart_input_append_return [OF Return] ca
    have step': "drill_step words index (keys @ k # post) = Next index' (r @ k # post) m"
      by (simp add: drill_step_def)
    from "1.prems"(1) lt step have "drill_loop words index' r = Waiting i"
      by (subst (asm) drill_loop.simps) simp
    with "1.IH" [OF lt step] "1.prems"(2)
    have "drill_loop words index' (r @ k # post) = ProcessExit 0"
      by simp
    with lt step' show ?thesis
      by (subst drill_loop.simps) simp
  next
    case (SysExit n out)
    with "1.prems"(1) lt show ?thesis
      by (subst (asm) drill_loop.simps) (simp add: drill_step_def)
  next
    case (Raise e)
    with "1.prems"(1) lt show ?thesis
      by (subst (asm) drill_loop.simps) (simp add: drill_step_def)
  next
    case (Blocked st)
    from smart_input_blocked_interrupt [OF Blocked "1.prems"(2)] lt show ?thesis
      by (subst drill_loop.simps) (simp add: drill_step_def)
  qed
qed

lemma hi_keys:
  "classify (KChar CHR ''i'') = Printable CHR ''i''"
  "classify (KChar CHR ''x'') = Printable CHR ''x''"
  "classify (KChar SPACE) = Printable SPACE"
  "classify (KChar CR) = Submit"
  "classify (KChar ETX) = Interrupt"
  by (simp_all add: CR_def LF_def TAB_def BS_def DEL_def ETX_def SPACE_def isprintable_def)

lemma smart_input_empty_target: "smart_input [] keys = Raise IndexError"
  by (simp add: smart_input_def getitem_def)

lemma getch_unix_not_tty:
  "getch_unix False ev t = (Threw TermiosError, t\<lparr>ops := ops t @ [TcGetAttr]\<rparr>)"
  by (simp add: getch_unix_def Let_def)

lemma getch_unix_completes:
  "getch_unix True (Some (ReadChar c)) t =
     (Got (KChar c), t\<lparr>ops := ops t @ [TcGetAttr, SetRaw, Read1, TcSetAttr (attrs t)]\<rparr>)"
  "getch_unix True (Some ReadEOF) t =
     (Got KEmpty, t\<lparr>ops := ops t @ [TcGetAttr, SetRaw, Read1, TcSetAttr (attrs t)]\<rparr>)"
  "getch_unix True (Some (ReadRaises e)) t =
     (Threw e, t\<lparr>ops := ops t @ [TcGetAttr, SetRaw, Read1, TcSetAttr (attrs t)]\<rparr>)"
  by (simp_all add: getch_unix_def Let_def)

lemma getch_unix_inside_read:
  "getch_unix True None t =
     (InRead, t\<lparr>attrs := setraw (attrs t), ops := ops t @ [TcGetAttr, SetRaw, Read1]\<rparr>)"
  "getch_unix True (Some ReadKilled) t =
     (KilledInRead, t\<lparr>attrs := setraw (attrs t), ops := ops t @ [TcGetAttr, SetRaw, Read1]\<rparr>)"
  by (simp_all add: getch_unix_def Let_def)

lemma getch_unix_attrs:
  "getch_unix tty ev t = (g, t') \<Longrightarrow>
   attrs t' = (if g = InRead \<or> g = KilledInRead then setraw (attrs t) else attrs t)"
  by (auto simp: getch_unix_def Let_def split: if_splits option.splits read_event.splits)

lemma getch_unix_none:
  "getch_unix tty None t = (g, t') \<Longrightarrow> g = InRead \<or> g = Threw TermiosError"
  by (auto simp: getch_unix_def Let_def split: if_splits)

lemma unix_loop_attrs:
  "attrs (snd (unix_loop tty target st evs t)) =
     (if in_read (fst (unix_loop tty target st evs t)) then setraw (attrs t) else attrs t)"
proof (induction evs arbitrary: st t)
  case Nil
  obtain g t' where g: "getch_unix tty None t = (g, t')"
    by (cases "getch_unix tty None t")
  from getch_unix_none [OF g] getch_unix_attrs [OF g] g show ?case
    by auto
next
  case (Cons ev evs)
  obtain g t' where g: "getch_unix tty (Some ev) t = (g, t')"
    by (cases "getch_unix tty (Some ev) t")
  note a = getch_unix_attrs [OF g]
  show ?case
  proof (cases g)
    case (Got char)
    with a have same: "attrs t' = attrs t" by simp
    from Got g same Cons.IH show ?thesis
      by (cases "handle_key target st char") simp_all
  qed (use g a in simp_all)
qed

section \<open>Properties of the capture loop\<close>

text \<open>
  C5. For the target "apple", the keys Tab, Tab, Enter make \<^verbatim>\<open>smart_input\<close> return
  exactly "app": the seeded first letter and the two letters the assist key completed,
  with nothing trimmed. The output written is the same three letters and the newline.
\<close>

theorem apple_two_assists:
  "smart_input ''apple'' [KChar TAB, KChar TAB, KChar CR] = Return ''app'' [] (''app'' @ [LF])"
  by (simp add: smart_input_def getitem_def handle_key_def CR_def LF_def TAB_def)

text \<open>
  C2. For every non-empty target and every sequence of printable characters followed by a
  Submit key (no Backspace, no AssistNext), \<^verbatim>\<open>smart_input\<close> returns the first character
  of the target followed by the typed characters in order: the seed is not replaced by
  the first keystroke. For "cat" and the keys c, a, t, Enter the result is "ccat".
\<close>

theorem printables_then_submit:
  assumes "target \<noteq> []" and "\<forall>c\<in>set cs. isprintable c" and "classify sub = Submit"
  shows "smart_input target (map KChar cs @ [sub]) =
           Return (target ! 0 # cs) [] (target ! 0 # cs @ [LF])"
proof -
  from assms(1) have seed: "getitem target 0 = Inr (target ! 0)"
    by (simp add: getitem_def)
  have "input_loop target \<lparr>input_buffer = [target ! 0], stdout = [target ! 0]\<rparr>
          (map KChar cs @ [sub]) =
        input_loop target \<lparr>input_buffer = target ! 0 # cs, stdout = target ! 0 # cs\<rparr> [sub]"
    using input_loop_printables [OF assms(2)] by simp
  also have "\<dots> = Return (target ! 0 # cs) [] (target ! 0 # cs @ [LF])"
    by (simp add: handle_key_submit [OF assms(3)])
  finally show ?thesis
    by (simp add: smart_input_def seed)
qed

theorem printables_then_submit_witness:
  "''cat'' \<noteq> [] \<and> list_all isprintable ''cat'' \<and> classify (KChar CR) = Submit \<and>
   smart_input ''cat'' [KChar CHR ''c'', KChar CHR ''a'', KChar CHR ''t'', KChar CR] =
     Return ''ccat'' [] (''ccat'' @ [LF])"
proof -
  have h1: "''cat'' \<noteq> []" by simp
  have h2: "\<forall>c\<in>set ''cat''. isprintable c" by (simp add: isprintable_def)
  have h3: "classify (KChar CR) = Submit" by simp
  from printables_then_submit [OF h1 h2 h3] h1 h2 h3 show ?thesis
    by (simp add: list_all_iff)
qed

text \<open>
  C3. In every state of the buffer, the Tab key with a buffer shorter than the target
  appends the target's character at the index equal to the buffer length and echoes it,
  and with a buffer at least as long as the target it changes nothing. So a buffer no
  longer than the target stays no longer than the target under any number of Tab keys.
\<close>

theorem assist_next_bounded:
  "handle_key target st (KChar TAB) =
     (if length (input_buffer st) < length target then
        Continue \<lparr>input_buffer = input_buffer st @ [target ! length (input_buffer st)],
                  stdout = stdout st @ [target ! length (input_buffer st)]\<rparr>
      else Continue st) \<and>
   (length (input_buffer st) \<le> length target \<longrightarrow>
      (\<exists>st'. input_loop target st (replicate n (KChar TAB)) = Blocked st' \<and>
             length (input_buffer st') \<le> length target))"
proof -
  have tab: "classify (KChar TAB) = AssistNext"
    by (simp add: TAB_def CR_def LF_def)
  have "input_loop target st (replicate n (KChar TAB) @ []) =
        Blocked \<lparr>input_buffer = input_buffer st @ take n (drop (length (input_buffer st)) target),
                 stdout = stdout st @ take n (drop (length (input_buffer st)) target)\<rparr>"
    unfolding input_loop_assists by simp
  then show ?thesis
    by (auto simp: handle_key_assist [OF tab])
qed

theorem assist_next_bounded_witness:
  "handle_key ''hi'' \<lparr>input_buffer = ''h'', stdout = ''h''\<rparr> (KChar TAB) =
     Continue \<lparr>input_buffer = ''hi'', stdout = ''hi''\<rparr> \<and>
   handle_key ''hi'' \<lparr>input_buffer = ''hi'', stdout = ''hi''\<rparr> (KChar TAB) =
     Continue \<lparr>input_buffer = ''hi'', stdout = ''hi''\<rparr> \<and>
   (\<exists>st'. input_loop ''hi'' \<lparr>input_buffer = ''h'', stdout = ''h''\<rparr> (replicate 5 (KChar TAB)) = Blocked st' \<and>
          length (input_buffer st') \<le> length ''hi'')"
  using assist_next_bounded [of "''hi''" "\<lparr>input_buffer = ''h'', stdout = ''h''\<rparr>" 5]
    assist_next_bounded [of "''hi''" "\<lparr>input_buffer = ''hi'', stdout = ''hi''\<rparr>" 0]
  by simp

text \<open>
  C4. A Backspace key on a non-empty buffer removes exactly one character, the one
  appended last, and writes the erase sequence; on an empty buffer it changes nothing.
  For "dog" and the keys d, Backspace, Enter the result is "d".
\<close>

theorem backspace_lifo:
  assumes "classify k = Backspace"
  shows "(input_buffer st = b @ [c] \<longrightarrow>
            handle_key target st k =
              Continue \<lparr>input_buffer = b, stdout = stdout st @ [BS, SPACE, BS]\<rparr>) \<and>
         (input_buffer st = [] \<longrightarrow> handle_key target st k = Continue st) \<and>
         smart_input ''dog'' [KChar CHR ''d'', k, KChar CR] = Return ''d'' [] (''dd'' @ [BS, SPACE, BS, LF])"
proof -
  have d: "classify (KChar CHR ''d'') = Printable CHR ''d''"
    by (rule classify_printable) (simp add: isprintable_def)
  have cr: "classify (KChar CR) = Submit" by simp
  show ?thesis
    by (simp add: handle_key_backspace [OF assms] handle_key_printable [OF d]
        handle_key_submit [OF cr] smart_input_def getitem_def)
qed

theorem backspace_lifo_witness:
  "classify (KChar BS) = Backspace \<and>
   handle_key ''dog'' \<lparr>input_buffer = ''do'' @ ''x'', stdout = ''dox''\<rparr> (KChar BS) =
     Continue \<lparr>input_buffer = ''do'', stdout = ''dox'' @ [BS, SPACE, BS]\<rparr> \<and>
   handle_key ''dog'' \<lparr>input_buffer = [], stdout = ''d'' @ [BS, SPACE, BS]\<rparr> (KChar BS) =
     Continue \<lparr>input_buffer = [], stdout = ''d'' @ [BS, SPACE, BS]\<rparr> \<and>
   smart_input ''dog'' [KChar CHR ''d'', KChar BS, KChar CR] =
     Return ''d'' [] (''dd'' @ [BS, SPACE, BS, LF])"
proof -
  have h: "classify (KChar BS) = Backspace"
    by (simp add: BS_def CR_def LF_def TAB_def)
  from backspace_lifo [OF h, of "\<lparr>input_buffer = ''do'' @ ''x'', stdout = ''dox''\<rparr>" "''do''" "CHR ''x''" "''dog''"]
    backspace_lifo [OF h, of "\<lparr>input_buffer = [], stdout = ''d'' @ [BS, SPACE, BS]\<rparr>" "[]" "CHR ''x''" "''dog''"]
    h
  show ?thesis by simp
qed

text \<open>
  C7. For every Ignored key (the \<^verbatim>\<open>None\<close> the Windows reader returns after a
  function-key lead byte and its discarded continuation byte, the empty string, or a
  non-printable character that is none of Submit, AssistNext, Backspace, Interrupt) the
  loop goes on with the buffer and the output unchanged.
\<close>

theorem ignored_key_no_effect:
  assumes "classify k = Ignored"
  shows "handle_key target st k = Continue st \<and>
         input_loop target st (k # ks) = input_loop target st ks \<and>
         (\<forall>lead\<in>{0x00, 0xE0}. getch_windows (lead # b # rest) = Some (KNone, rest)) \<and>
         classify KNone = Ignored"
  using assms by (simp add: handle_key_ignored)

theorem ignored_key_no_effect_witness:
  "classify (KChar CHR 0x1B) = Ignored \<and>
   handle_key ''cat'' \<lparr>input_buffer = ''ca'', stdout = ''ca''\<rparr> (KChar CHR 0x1B) =
     Continue \<lparr>input_buffer = ''ca'', stdout = ''ca''\<rparr> \<and>
   input_loop ''cat'' \<lparr>input_buffer = ''ca'', stdout = ''ca''\<rparr> [KChar CHR 0x1B, KChar CR] =
     Return ''ca'' [] (''ca'' @ [LF]) \<and>
   getch_windows [0xE0, 0x48, 0x0D] = Some (KNone, [0x0D])"
proof -
  have h: "classify (KChar CHR 0x1B) = Ignored"
    by (simp add: CR_def LF_def TAB_def BS_def DEL_def ETX_def isprintable_def)
  have cr: "classify (KChar CR) = Submit" by simp
  from ignored_key_no_effect [OF h, of "''cat''" "\<lparr>input_buffer = ''ca'', stdout = ''ca''\<rparr>" "[KChar CR]" "0x48" "[0x0D]"] h
  show ?thesis
    by (simp add: handle_key_submit [OF cr])
qed

text \<open>
  C9. The seeded first character is not protected: for every non-empty target the keys
  Backspace, Enter return the empty string, and once the buffer is empty the Tab key
  puts the first character of the target back, as for any typed character.
\<close>

theorem seed_not_protected:
  assumes "target \<noteq> []" and "classify bk = Backspace" and "classify sub = Submit"
    and "classify tab = AssistNext"
  shows "smart_input target [bk, sub] = Return [] [] ([target ! 0, BS, SPACE, BS, LF]) \<and>
         smart_input target [bk] =
           Blocked \<lparr>input_buffer = [], stdout = [target ! 0, BS, SPACE, BS]\<rparr> \<and>
         smart_input target [bk, tab] =
           Blocked \<lparr>input_buffer = [target ! 0],
                    stdout = [target ! 0, BS, SPACE, BS, target ! 0]\<rparr> \<and>
         smart_input target [bk, tab, sub] =
           Return [target ! 0] [] [target ! 0, BS, SPACE, BS, target ! 0, LF]"
  using assms(1)
  by (simp add: smart_input_def getitem_def handle_key_backspace [OF assms(2)]
      handle_key_submit [OF assms(3)] handle_key_assist [OF assms(4)])

theorem seed_not_protected_witness:
  "smart_input ''dog'' [KChar DEL, KChar LF] = Return [] [] ([CHR ''d'', BS, SPACE, BS, LF]) \<and>
   smart_input ''dog'' [KChar DEL, KChar TAB, KChar LF] =
     Return ''d'' [] [CHR ''d'', BS, SPACE, BS, CHR ''d'', LF]"
proof -
  have h1: "''dog'' \<noteq> []" by simp
  have h2: "classify (KChar DEL) = Backspace"
    by (simp add: CR_def LF_def TAB_def BS_def DEL_def)
  have h3: "classify (KChar LF) = Submit" by simp
  have h4: "classify (KChar TAB) = AssistNext"
    by (simp add: CR_def LF_def TAB_def)
  from seed_not_protected [OF h1 h2 h3 h4] show ?thesis by simp
qed

text \<open>
  C10. For every non-empty target and every sequence of keys \<^verbatim>\<open>smart_input\<close> raises no
  exception: the seeding reads index 0, which exists, the Tab branch reads the index
  equal to the buffer length only when it is below the target length, and no pass of the
  loop body raises.
\<close>

theorem index_never_out_of_range:
  assumes "target \<noteq> []"
  shows "smart_input target keys \<noteq> Raise e \<and>
         getitem target 0 = Inr (target ! 0) \<and>
         (length (input_buffer st) < length target \<longrightarrow>
            getitem target (length (input_buffer st)) = Inr (target ! length (input_buffer st))) \<and>
         handle_key target st k \<noteq> Raised e"
proof -
  have "handle_key target st k \<noteq> Raised e"
    by (auto simp: handle_key_def getitem_def Let_def split: key.splits)
  with assms show ?thesis
    by (simp add: smart_input_def getitem_def input_loop_never_raises)
qed

theorem index_never_out_of_range_witness:
  "smart_input ''hi'' [KChar TAB, KChar TAB, KChar TAB, KChar CR] \<noteq> Raise IndexError \<and>
   smart_input ''hi'' [KChar TAB, KChar TAB, KChar TAB, KChar CR] = Return ''hi'' [] (''hi'' @ [LF])"
proof -
  have h: "''hi'' \<noteq> []" by simp
  have "smart_input ''hi'' [KChar TAB, KChar TAB, KChar TAB, KChar CR] = Return ''hi'' [] (''hi'' @ [LF])"
    by (simp add: smart_input_def getitem_def handle_key_def CR_def LF_def TAB_def)
  with index_never_out_of_range [OF h, of "[KChar TAB, KChar TAB, KChar TAB, KChar CR]" IndexError]
  show ?thesis by simp
qed

section \<open>Properties of the drill loop\<close>

text \<open>
  C1 as stated does not hold: the comparison is not exact. With the word book ["hi"], the
  keys i, space, Enter make \<^verbatim>\<open>smart_input\<close> return "hi " (with a trailing space), which
  is not the target, and yet the index moves on and the drill completes.
\<close>

theorem exact_comparison_counterexample:
  "smart_input ''hi'' [KChar CHR ''i'', KChar SPACE, KChar CR] = Return ''hi '' [] (''hi '' @ [LF]) \<and>
   ''hi '' \<noteq> ''hi'' \<and>
   drill_step [''hi''] 0 [KChar CHR ''i'', KChar SPACE, KChar CR] = Next 1 [] Correct \<and>
   drill_loop [''hi''] 0 [KChar CHR ''i'', KChar SPACE, KChar CR] = Completed"
  by (simp add: drill_loop.simps drill_step_def smart_input_def getitem_def check_answer_def
      strip_def isspace_def SPACE_def handle_key_printable [OF hi_keys(1)]
      handle_key_printable [OF hi_keys(3) [unfolded SPACE_def]] handle_key_submit [OF hi_keys(4)])

text \<open>
  C1, amended. For every word book, index and string returned by \<^verbatim>\<open>smart_input\<close>, the
  drill loop compares the returned string, stripped of leading and trailing whitespace,
  with the current target: the index advances by one if and only if the stripped string
  equals the target, and otherwise stays on the same target, which is then asked again.
  For the word book ["hi"] a returned "hx" keeps the index and a returned "hi" advances it.
\<close>

theorem stripped_comparison:
  assumes "smart_input (words ! index) keys = Return user_input rest out"
  shows "drill_step words index keys =
           (if strip user_input = words ! index then Next (index + 1) rest Correct
            else Next index rest (Wrong user_input)) \<and>
         (snd (check_answer (words ! index) user_input index) = index + 1
            \<longleftrightarrow> strip user_input = words ! index) \<and>
         (snd (check_answer (words ! index) user_input index) = index
            \<longleftrightarrow> strip user_input \<noteq> words ! index)"
  using assms by (simp add: drill_step_def check_answer_def)

theorem stripped_comparison_witness:
  "smart_input ([''hi''] ! 0) [KChar CHR ''x'', KChar CR] = Return ''hx'' [] (''hx'' @ [LF]) \<and>
   drill_step [''hi''] 0 [KChar CHR ''x'', KChar CR] = Next 0 [] (Wrong ''hx'') \<and>
   smart_input ([''hi''] ! 0) [KChar CHR ''i'', KChar CR] = Return ''hi'' [] (''hi'' @ [LF]) \<and>
   drill_step [''hi''] 0 [KChar CHR ''i'', KChar CR] = Next 1 [] Correct"
proof -
  have a: "smart_input ([''hi''] ! 0) [KChar CHR ''x'', KChar CR] = Return ''hx'' [] (''hx'' @ [LF])"
    by (simp add: smart_input_def getitem_def handle_key_printable [OF hi_keys(2)]
        handle_key_submit [OF hi_keys(4)])
  have b: "smart_input ([''hi''] ! 0) [KChar CHR ''i'', KChar CR] = Return ''hi'' [] (''hi'' @ [LF])"
    by (simp add: smart_input_def getitem_def handle_key_printable [OF hi_keys(1)]
        handle_key_submit [OF hi_keys(4)])
  have s: "strip ''hx'' = ''hx''" "strip ''hi'' = ''hi''"
    by (simp_all add: strip_def isspace_def)
  from stripped_comparison [OF a] stripped_comparison [OF b] a b s
  show ?thesis by simp
qed

text \<open>
  C6 as stated does not hold: the exit status of an interrupted run says nothing about a
  cancellation. It is 0, the status of a run in which every word was entered.
\<close>

theorem interrupt_status_counterexample:
  "drill_loop [''hi''] 0 [KChar ETX] = ProcessExit 0 \<and>
   exit_status (drill_loop [''hi''] 0 [KChar ETX]) = Some 0 \<and>
   drill_loop [''hi''] 0 [KChar CHR ''i'', KChar CR] = Completed \<and>
   exit_status (drill_loop [''hi''] 0 [KChar CHR ''i'', KChar CR]) = Some 0"
  by (simp add: drill_loop.simps drill_step_def smart_input_def getitem_def check_answer_def
      strip_def isspace_def handle_key_printable [OF hi_keys(1)]
      handle_key_interrupt [OF hi_keys(5)] handle_key_submit [OF hi_keys(4)])

text \<open>
  C6, amended. In every state of a capture, the Interrupt key (code 0x03) ends the whole
  process at once through \<^verbatim>\<open>sys.exit(0)\<close>, not only the current attempt: whatever keys
  were read before while the drill was still waiting, and whatever keys would follow, the
  process exits with status 0, the same status as a normal completion.
\<close>

theorem interrupt_exits_process:
  assumes "classify k = Interrupt"
  shows "handle_key target st k = Exited 0 st \<and>
         input_loop target st (k # ks) = SysExit 0 (stdout st) \<and>
         (drill_loop words index pre = Waiting i \<longrightarrow>
            drill_loop words index (pre @ k # post) = ProcessExit 0 \<and>
            exit_status (drill_loop words index (pre @ k # post)) = Some 0)"
  using assms drill_loop_interrupt [of words index pre i k post]
  by (simp add: handle_key_interrupt)

theorem interrupt_exits_process_witness:
  "classify (KChar ETX) = Interrupt \<and>
   drill_loop [''hi'', ''yo''] 0 [KChar CHR ''x'', KChar CR, KChar CHR ''i''] = Waiting 0 \<and>
   drill_loop [''hi'', ''yo''] 0 ([KChar CHR ''x'', KChar CR, KChar CHR ''i''] @ KChar ETX # [KChar CR]) =
     ProcessExit 0"
proof -
  have w: "drill_loop [''hi'', ''yo''] 0 [KChar CHR ''x'', KChar CR, KChar CHR ''i''] = Waiting 0"
    by (simp add: drill_loop.simps drill_step_def smart_input_def getitem_def check_answer_def
        strip_def isspace_def handle_key_printable [OF hi_keys(1)]
        handle_key_printable [OF hi_keys(2)] handle_key_submit [OF hi_keys(4)])
  from interrupt_exits_process [OF hi_keys(5), of _ _ _ "[''hi'', ''yo'']" 0 "[KChar CHR ''x'', KChar CR, KChar CHR ''i'']" 0 "[KChar CR]"] w hi_keys(5)
  show ?thesis by simp
qed

section \<open>Properties of the POSIX key reader\<close>

text \<open>
  C8 as stated does not hold: the terminal can be left in raw mode when the process ends.
  While a call is inside its read the terminal is in raw mode, and a signal that ends the
  process there runs no \<^verbatim>\<open>finally\<close> clause: the attributes stay raw, with echo and line
  mode off, and no restoring call is made.
\<close>

theorem killed_in_read_counterexample:
  "unix_loop True ''hi'' \<lparr>input_buffer = ''h'', stdout = ''h''\<rparr> [ReadChar CHR ''i'', ReadKilled]
       \<lparr>attrs = cooked, ops = []\<rparr> =
     (UnixKilled \<lparr>input_buffer = ''hi'', stdout = ''hi''\<rparr>,
      \<lparr>attrs = setraw cooked,
       ops = [TcGetAttr, SetRaw, Read1, TcSetAttr cooked, TcGetAttr, SetRaw, Read1]\<rparr>) \<and>
   setraw cooked \<noteq> cooked \<and>
   echo (setraw cooked) = False \<and> icanon (setraw cooked) = False"
  by (simp add: getch_unix_def Let_def handle_key_printable [OF hi_keys(1)] setraw_def cooked_def)

text \<open>
  C8, amended. On a terminal, every call of \<^verbatim>\<open>_GetchUnix.__call__\<close> saves the attributes
  before it enters raw mode and makes exactly one read of one character; when the read
  returns or raises (a normal return, a read failure, or a read of code 0x03 that leads to
  \<^verbatim>\<open>sys.exit\<close>), the saved attributes are restored before the call returns. When standard
  input is not a terminal, the saving raises and nothing else is done. The terminal is in
  raw mode exactly while a call is inside its read: however the capture loop ends after a
  call has returned or raised, the attributes are the ones from before the capture, and
  while the loop is inside a read, or when the process is ended there, they are the raw ones.
\<close>

theorem raw_mode_scoped:
  "getch_unix False ev t = (Threw TermiosError, t\<lparr>ops := ops t @ [TcGetAttr]\<rparr>) \<and>
   getch_unix True (Some (ReadChar c)) t =
     (Got (KChar c), t\<lparr>ops := ops t @ [TcGetAttr, SetRaw, Read1, TcSetAttr (attrs t)]\<rparr>) \<and>
   getch_unix True (Some ReadEOF) t =
     (Got KEmpty, t\<lparr>ops := ops t @ [TcGetAttr, SetRaw, Read1, TcSetAttr (attrs t)]\<rparr>) \<and>
   getch_unix True (Some (ReadRaises e)) t =
     (Threw e, t\<lparr>ops := ops t @ [TcGetAttr, SetRaw, Read1, TcSetAttr (attrs t)]\<rparr>) \<and>
   getch_unix True None t =
     (InRead, t\<lparr>attrs := setraw (attrs t), ops := ops t @ [TcGetAttr, SetRaw, Read1]\<rparr>) \<and>
   getch_unix True (Some ReadKilled) t =
     (KilledInRead, t\<lparr>attrs := setraw (attrs t), ops := ops t @ [TcGetAttr, SetRaw, Read1]\<rparr>) \<and>
   unix_loop True target st (ReadChar ETX # evs) t =
     (UnixSysExit 0 (stdout st),
      t\<lparr>ops := ops t @ [TcGetAttr, SetRaw, Read1, TcSetAttr (attrs t)]\<rparr>) \<and>
   attrs (snd (unix_loop tty target st evs t)) =
     (if in_read (fst (unix_loop tty target st evs t)) then setraw (attrs t) else attrs t)"
proof -
  have etx: "classify (KChar ETX) = Interrupt"
    by (simp add: CR_def LF_def TAB_def BS_def DEL_def ETX_def)
  have "unix_loop True target st (ReadChar ETX # evs) t =
          (UnixSysExit 0 (stdout st),
           t\<lparr>ops := ops t @ [TcGetAttr, SetRaw, Read1, TcSetAttr (attrs t)]\<rparr>)"
    by (simp add: getch_unix_completes handle_key_interrupt [OF etx])
  then show ?thesis
    using unix_loop_attrs [of tty target st evs t]
    by (simp only: getch_unix_not_tty getch_unix_completes getch_unix_inside_read simp_thms)
qed

theorem raw_mode_scoped_witness:
  "getch_unix True (Some (ReadRaises OSError)) \<lparr>attrs = cooked, ops = []\<rparr> =
     (Threw OSError, \<lparr>attrs = cooked, ops = [TcGetAttr, SetRaw, Read1, TcSetAttr cooked]\<rparr>) \<and>
   unix_loop True ''hi'' \<lparr>input_buffer = ''h'', stdout = ''h''\<rparr> [ReadChar ETX]
       \<lparr>attrs = cooked, ops = []\<rparr> =
     (UnixSysExit 0 ''h'', \<lparr>attrs = cooked, ops = [TcGetAttr, SetRaw, Read1, TcSetAttr cooked]\<rparr>) \<and>
   attrs (snd (unix_loop True ''hi'' \<lparr>input_buffer = ''h'', stdout = ''h''\<rparr> []
       \<lparr>attrs = cooked, ops = []\<rparr>)) = setraw cooked"
proof -
  have b: "unix_loop True ''hi'' \<lparr>input_buffer = ''h'', stdout = ''h''\<rparr> []
       \<lparr>attrs = cooked, ops = []\<rparr> =
     (UnixInRead \<lparr>input_buffer = ''h'', stdout = ''h''\<rparr>,
      \<lparr>attrs = setraw cooked, ops = [TcGetAttr, SetRaw, Read1]\<rparr>)"
    by (simp add: getch_unix_inside_read)
  from raw_mode_scoped [of "None" "\<lparr>attrs = cooked, ops = []\<rparr>" "CHR ''i''" OSError "''hi''"
      "\<lparr>input_buffer = ''h'', stdout = ''h''\<rparr>" "[]" True] b
  show ?thesis by simp
qed

end
